theory Spec2Isabelle
  imports Complex_Main
begin

section \<open>JavaScript values as the handlers see them\<close>

text \<open>
  A JavaScript number is a double. The model keeps the three non-finite values apart and
  represents a finite double by the real number it denotes (both zeros are \<open>Fin 0\<close>).
  The handlers take the minimum of two numbers, test one for truthiness and multiply one
  by 8.
\<close>

datatype number = NaN | PInf | NInf | Fin real

text \<open>
  The arguments of a tool call are decoded from a JSON-RPC message, so the values the
  validator inspects are the values JSON decoding builds. \<open>undefined\<close> is not one of
  them: it only arises as the absence of the \<open>arguments\<close> member or of a property, and
  is the \<open>None\<close> of \<open>jsval\<close>. The properties of an object are kept in lookup order.
\<close>

datatype json =
    JNull
  | JBool bool
  | JNum number
  | JStr string
  | JArr "json list"
  | JObj "(string \<times> json) list"

type_synonym jsval = "json option"

text \<open>The \<open>typeof\<close> operator.\<close>

fun typeof :: "jsval \<Rightarrow> string" where
  "typeof None = ''undefined''"
| "typeof (Some JNull) = ''object''"
| "typeof (Some (JBool b)) = ''boolean''"
| "typeof (Some (JNum n)) = ''number''"
| "typeof (Some (JStr s)) = ''string''"
| "typeof (Some (JArr xs)) = ''object''"
| "typeof (Some (JObj kvs)) = ''object''"

text \<open>
  \<open>k in v\<close> and \<open>v.k\<close> for the property names this program reads (\<open>city\<close>, \<open>days\<close>,
  \<open>message\<close>): none of them is defined on an array or on the wrapper of a primitive, so
  only an object can hold them. Both operators throw on \<open>null\<close> and \<open>undefined\<close>
  (\<open>in\<close> on every primitive); the validator reaches them behind its \<open>typeof\<close> and
  \<open>null\<close> tests only, and the error path tests for them itself (\<open>api_error_message\<close>).
\<close>

fun js_in :: "string \<Rightarrow> jsval \<Rightarrow> bool" where
  "js_in k (Some (JObj kvs)) = (map_of kvs k \<noteq> None)"
| "js_in k _ = False"

fun get_prop :: "jsval \<Rightarrow> string \<Rightarrow> jsval" where
  "get_prop (Some (JObj kvs)) k = map_of kvs k"
| "get_prop _ k = None"

section \<open>types.ts\<close>

record main_fields =
  temp :: number
  humidity :: number

record weather_entry =
  description :: string

record wind_fields =
  speed :: number

record OpenWeatherResponse =
  main :: main_fields
  weather :: "weather_entry list"
  wind :: wind_fields
  dt_txt :: "string option"

record WeatherData =
  temperature :: number
  conditions :: string
  humidity :: number
  wind_speed :: number
  timestamp :: string

record ForecastDay =
  date :: string
  temperature :: number
  conditions :: string

text \<open>The type guard \<open>isValidForecastArgs\<close>, conjunct by conjunct.\<close>

definition isValidForecastArgs :: "jsval \<Rightarrow> bool" where
  "isValidForecastArgs args \<longleftrightarrow>
     typeof args = ''object'' \<and>
     args \<noteq> Some JNull \<and>
     js_in ''city'' args \<and>
     typeof (get_prop args ''city'') = ''string'' \<and>
     (get_prop args ''days'' = None \<or> typeof (get_prop args ''days'') = ''number'')"

section \<open>index.ts: the surroundings of the handlers\<close>

definition DEFAULT_CITY :: string where
  "DEFAULT_CITY = ''San Francisco''"

datatype endpoint = CURRENT | FORECAST

datatype ErrorCode = InvalidRequest | MethodNotFound | InvalidParams | InternalError

text \<open>
  What axios attaches to a failed request: the response, when the provider sent one, with
  its decoded body, and the transport's own message.
\<close>

record AxiosResponse =
  data :: jsval

record AxiosErrorT =
  response :: "AxiosResponse option"
  message :: string

text \<open>Everything a handler can throw.\<close>

datatype exn =
    McpError ErrorCode string
  | TypeError
  | AxiosError AxiosErrorT
  | OtherError string

fun isAxiosError :: "exn \<Rightarrow> bool" where
  "isAxiosError (AxiosError e) = True"
| "isAxiosError _ = False"

text \<open>
  The outside world of one request: what \<open>axiosInstance.get\<close> answers on each of the two
  endpoints (a rejected promise is \<open>Inl\<close>), the ISO string \<open>new Date().toISOString()\<close>
  gives while the request is handled, and the decimal text the language prints for a
  number.
\<close>

record env =
  get_current :: "string \<Rightarrow> exn + OpenWeatherResponse"
  get_forecast :: "string \<Rightarrow> number \<Rightarrow> exn + OpenWeatherResponse list"
  now :: string
  number_text :: "number \<Rightarrow> string"

text \<open>One outbound request, as recorded in the log of network calls.\<close>

record http_call =
  endpoint :: endpoint
  q :: string
  cnt :: "number option"

text \<open>
  The payload of a reply before \<open>JSON.stringify\<close> serialises it, or a plain text.
\<close>

datatype payload =
    WeatherJson WeatherData
  | ForecastJson "ForecastDay list"
  | Plain string

record resource_contents =
  uri :: string
  mimeType :: string
  body :: payload

record tool_result =
  content :: payload
  isError :: bool

section \<open>Library functions the handlers call\<close>

text \<open>\<open>s.split(sep)\<close> for a separator of one character.\<close>

function split :: "char \<Rightarrow> string \<Rightarrow> string list" where
  "split sep s =
     (case dropWhile (\<lambda>c. c \<noteq> sep) s of
        [] \<Rightarrow> [takeWhile (\<lambda>c. c \<noteq> sep) s]
      | _ # rest \<Rightarrow> takeWhile (\<lambda>c. c \<noteq> sep) s # split sep rest)"
  by pat_completeness auto
termination
proof (relation "measure (\<lambda>(sep, s). length s)")
  show "wf (measure (\<lambda>(sep, s). length s))" by simp
next
  fix sep :: char and s :: string and x rest
  assume "dropWhile (\<lambda>c. c \<noteq> sep) s = x # rest"
  then have "length (dropWhile (\<lambda>c. c \<noteq> sep) s) = Suc (length rest)" by simp
  moreover have "length (dropWhile (\<lambda>c. c \<noteq> sep) s) \<le> length s"
    by (rule length_dropWhile_le)
  ultimately show "((sep, rest), (sep, s)) \<in> measure (\<lambda>(sep, s). length s)" by simp
qed

declare split.simps [simp del]

text \<open>
  \<open>s.split(sep)[0]\<close>. \<open>split\<close> never returns an empty array (\<open>split_not_Nil\<close>), so the
  element at index 0 exists.
\<close>

definition split0 :: "char \<Rightarrow> string \<Rightarrow> string" where
  "split0 sep s = hd (split sep s)"

text \<open>\<open>Math.min\<close> of two numbers.\<close>

fun Math_min :: "number \<Rightarrow> number \<Rightarrow> number" where
  "Math_min NaN y = NaN"
| "Math_min x NaN = NaN"
| "Math_min NInf y = NInf"
| "Math_min x NInf = NInf"
| "Math_min PInf y = y"
| "Math_min x PInf = x"
| "Math_min (Fin a) (Fin b) = Fin (min a b)"

text \<open>The largest finite double, \<open>Number.MAX_VALUE\<close>.\<close>

definition MAX_VALUE :: real where
  "MAX_VALUE = (2 ^ 53 - 1) * 2 ^ 971"

text \<open>
  \<open>x * y\<close> where one factor is a power of two, as the 8 of \<open>days * 8\<close> is: the product
  of two finite doubles is then their exact product, unless that lies beyond
  \<open>MAX_VALUE\<close>, where it overflows to an infinity.
\<close>

fun times_number :: "number \<Rightarrow> number \<Rightarrow> number" where
  "times_number NaN y = NaN"
| "times_number x NaN = NaN"
| "times_number (Fin a) (Fin b) =
     (if MAX_VALUE < a * b then PInf
      else if a * b < - MAX_VALUE then NInf
      else Fin (a * b))"
| "times_number (Fin a) PInf = (if a = 0 then NaN else if 0 < a then PInf else NInf)"
| "times_number (Fin a) NInf = (if a = 0 then NaN else if 0 < a then NInf else PInf)"
| "times_number PInf (Fin b) = (if b = 0 then NaN else if 0 < b then PInf else NInf)"
| "times_number NInf (Fin b) = (if b = 0 then NaN else if 0 < b then NInf else PInf)"
| "times_number PInf PInf = PInf"
| "times_number PInf NInf = NInf"
| "times_number NInf PInf = NInf"
| "times_number NInf NInf = PInf"

declare times_number.simps [simp del]

text \<open>\<open>x || d\<close> for \<open>x\<close> a number or \<open>undefined\<close>: \<open>undefined\<close>, \<open>NaN\<close> and zero are falsy.\<close>

fun or_number :: "number option \<Rightarrow> number \<Rightarrow> number" where
  "or_number None d = d"
| "or_number (Some NaN) d = d"
| "or_number (Some (Fin a)) d = (if a = 0 then d else Fin a)"
| "or_number (Some x) d = x"

text \<open>
  The text a template literal makes of a value, \<open>ToString\<close>. An array is joined with
  commas, \<open>null\<close> elements printing as nothing. An object prints as
  \<open>[object Object]\<close> through the inherited \<open>toString\<close>; when it has a property
  \<open>toString\<close> of its own, which decoded from JSON is never a function, neither that nor
  the inherited \<open>valueOf\<close> yields a primitive and the conversion throws.
\<close>

fun ToString :: "(number \<Rightarrow> string) \<Rightarrow> json \<Rightarrow> exn + string"
  and join :: "(number \<Rightarrow> string) \<Rightarrow> json list \<Rightarrow> exn + string" where
  "ToString nt JNull = Inr ''null''"
| "ToString nt (JBool b) = Inr (if b then ''true'' else ''false'')"
| "ToString nt (JNum n) = Inr (nt n)"
| "ToString nt (JStr s) = Inr s"
| "ToString nt (JArr xs) = join nt xs"
| "ToString nt (JObj kvs) =
     (if map_of kvs ''toString'' \<noteq> None then Inl TypeError else Inr ''[object Object]'')"
| "join nt [] = Inr []"
| "join nt (x # xs) =
     (case (case x of JNull \<Rightarrow> Inr [] | _ \<Rightarrow> ToString nt x) of
        Inl err \<Rightarrow> Inl err
      | Inr s \<Rightarrow>
          (case xs of
             [] \<Rightarrow> Inr s
           | _ # _ \<Rightarrow>
               (case join nt xs of Inl err \<Rightarrow> Inl err | Inr r \<Rightarrow> Inr (s @ '','' @ r))))"

text \<open>
  The fields of validated arguments, at the types the type guard has narrowed them to
  (\<open>city: string\<close>, \<open>days?: number\<close>).
\<close>

definition args_city :: "jsval \<Rightarrow> string" where
  "args_city args = (case get_prop args ''city'' of Some (JStr s) \<Rightarrow> s | _ \<Rightarrow> [])"

definition args_days :: "jsval \<Rightarrow> number option" where
  "args_days args = (case get_prop args ''days'' of Some (JNum n) \<Rightarrow> Some n | _ \<Rightarrow> None)"

section \<open>index.ts: the handlers\<close>

text \<open>
  \<open>error.response?.data.message ?? error.message\<close>, as the template literal of both
  \<open>catch\<close> blocks prints it. The optional chain guards \<open>response\<close> only: with a response
  whose body is \<open>null\<close> or \<open>undefined\<close>, reading \<open>message\<close> throws. So does the
  template literal on a \<open>message\<close> that has no text (\<open>ToString\<close>).
\<close>

definition api_error_message :: "env \<Rightarrow> AxiosErrorT \<Rightarrow> exn + string" where
  "api_error_message e err =
     (case response err of
        None \<Rightarrow> Inr (message err)
      | Some r \<Rightarrow>
          (case data r of
             None \<Rightarrow> Inl TypeError
           | Some JNull \<Rightarrow> Inl TypeError
           | Some d \<Rightarrow>
               (case get_prop (Some d) ''message'' of
                  None \<Rightarrow> Inr (message err)
                | Some JNull \<Rightarrow> Inr (message err)
                | Some m \<Rightarrow> ToString (number_text e) m)))"

text \<open>
  \<open>x.weather[0].description\<close>: element 0 of an empty array is \<open>undefined\<close>, and the
  property read on it throws.
\<close>

definition first_description :: "OpenWeatherResponse \<Rightarrow> exn + string" where
  "first_description x =
     (case weather x of [] \<Rightarrow> Inl TypeError | w # _ \<Rightarrow> Inr (description w))"

text \<open>The object literal of the resource handler (lines 122-128).\<close>

definition weather_data :: "env \<Rightarrow> OpenWeatherResponse \<Rightarrow> exn + WeatherData" where
  "weather_data e x =
     (case first_description x of
        Inl err \<Rightarrow> Inl err
      | Inr c \<Rightarrow>
          Inr (WeatherData.make (temp (main x)) c (main_fields.humidity (main x))
                 (speed (wind x)) (now e)))"

text \<open>The \<open>catch\<close> block of the resource handler (lines 137-145).\<close>

definition read_catch :: "env \<Rightarrow> exn \<Rightarrow> exn" where
  "read_catch e error =
     (case error of
        AxiosError err \<Rightarrow>
          (case api_error_message e err of
             Inl thrown \<Rightarrow> thrown
           | Inr m \<Rightarrow> McpError InternalError (''Weather API error: '' @ m))
      | _ \<Rightarrow> error)"

text \<open>
  The handler of \<open>ReadResourceRequestSchema\<close>: what it returns or throws, and the network
  calls it has made.
\<close>

definition readResource ::
  "env \<Rightarrow> string \<Rightarrow> (exn + resource_contents list) \<times> http_call list" where
  "readResource e request_uri =
     (let city = DEFAULT_CITY in
      if request_uri \<noteq> ''weather://'' @ city @ ''/current'' then
        (Inl (McpError InvalidRequest (''Unknown resource: '' @ request_uri)), [])
      else
        (case get_current e city of
           Inl error \<Rightarrow> Inl (read_catch e error)
         | Inr response_data \<Rightarrow>
             (case weather_data e response_data of
                Inl error \<Rightarrow> Inl (read_catch e error)
              | Inr weatherData \<Rightarrow>
                  Inr [\<lparr>uri = request_uri, mimeType = ''application/json'',
                        body = WeatherJson weatherData\<rparr>]),
         [\<lparr>endpoint = CURRENT, q = city, cnt = None\<rparr>]))"

text \<open>The object literal pushed by the forecast loop (lines 217-221).\<close>

definition forecast_day :: "env \<Rightarrow> OpenWeatherResponse \<Rightarrow> exn + ForecastDay" where
  "forecast_day e dayData =
     (let d = (case dt_txt dayData of
                 Some t \<Rightarrow> split0 (CHR '' '') t
               | None \<Rightarrow> split0 (CHR ''T'') (now e))
      in case first_description dayData of
           Inl err \<Rightarrow> Inl err
         | Inr c \<Rightarrow> Inr \<lparr>date = d, temperature = temp (main dayData), conditions = c\<rparr>)"

text \<open>
  The loop \<open>for (let i = 0; i < list.length; i += 8)\<close> (lines 215-222), from the index
  \<open>i\<close> with the entries pushed so far.
\<close>

function forecast_loop ::
  "env \<Rightarrow> OpenWeatherResponse list \<Rightarrow> nat \<Rightarrow> ForecastDay list \<Rightarrow> exn + ForecastDay list" where
  "forecast_loop e list i forecasts =
     (if i < length list then
        (case forecast_day e (list ! i) of
           Inl err \<Rightarrow> Inl err
         | Inr day \<Rightarrow> forecast_loop e list (i + 8) (forecasts @ [day]))
      else Inr forecasts)"
  by pat_completeness auto
termination
  by (relation "measure (\<lambda>(e, list, i, forecasts). length list - i)") auto

declare forecast_loop.simps [simp del]

text \<open>The \<open>catch\<close> block of the tool handler (lines 230-241).\<close>

definition tool_catch :: "env \<Rightarrow> exn \<Rightarrow> exn + tool_result" where
  "tool_catch e error =
     (case error of
        AxiosError err \<Rightarrow>
          (case api_error_message e err of
             Inl thrown \<Rightarrow> Inl thrown
           | Inr m \<Rightarrow> Inr \<lparr>content = Plain (''Weather API error: '' @ m), isError = True\<rparr>)
      | _ \<Rightarrow> Inl error)"

text \<open>\<open>Math.min(request.params.arguments.days || 3, 5)\<close> (line 201).\<close>

definition effective_days :: "jsval \<Rightarrow> number" where
  "effective_days args = Math_min (or_number (args_days args) (Fin 3)) (Fin 5)"

text \<open>
  The handler of \<open>CallToolRequestSchema\<close>: what it returns or throws, and the network
  calls it has made.
\<close>

definition callTool ::
  "env \<Rightarrow> string \<Rightarrow> jsval \<Rightarrow> (exn + tool_result) \<times> http_call list" where
  "callTool e name args =
     (if name \<noteq> ''get_forecast'' then
        (Inl (McpError MethodNotFound (''Unknown tool: '' @ name)), [])
      else if \<not> isValidForecastArgs args then
        (Inl (McpError InvalidParams ''Invalid forecast arguments''), [])
      else
        (let city = args_city args;
             days = effective_days args
         in (case get_forecast e city (times_number days (Fin 8)) of
               Inl error \<Rightarrow> tool_catch e error
             | Inr list \<Rightarrow>
                 (case forecast_loop e list 0 [] of
                    Inl error \<Rightarrow> tool_catch e error
                  | Inr forecasts \<Rightarrow>
                      Inr \<lparr>content = ForecastJson forecasts, isError = False\<rparr>),
             [\<lparr>endpoint = FORECAST, q = city,
               cnt = Some (times_number days (Fin 8))\<rparr>])))"

section \<open>Concrete requests and environments\<close>

text \<open>
  The inputs at which the theorems below are instantiated: a 3-hour sample whose
  temperature is its index in the listing, an environment that answers every request
  the same way and prints whole numbers in decimal (no other number is printed below),
  and argument objects for Paris.
\<close>

definition sample_at :: "nat \<Rightarrow> OpenWeatherResponse" where
  "sample_at k =
     \<lparr>main = \<lparr>temp = Fin (real k), humidity = Fin 50\<rparr>,
      weather = [\<lparr>description = ''clear sky''\<rparr>],
      wind = \<lparr>speed = Fin 2\<rparr>,
      dt_txt = Some ''2024-05-01 09:00:00''\<rparr>"

definition listing :: "nat \<Rightarrow> OpenWeatherResponse list" where
  "listing n = map sample_at [0..<n]"

definition undated :: OpenWeatherResponse where
  "undated =
     \<lparr>main = \<lparr>temp = Fin 14, humidity = Fin 60\<rparr>,
      weather = [\<lparr>description = ''light rain''\<rparr>],
      wind = \<lparr>speed = Fin 3\<rparr>,
      dt_txt = None\<rparr>"

definition no_conditions :: OpenWeatherResponse where
  "no_conditions =
     \<lparr>main = \<lparr>temp = Fin 11, humidity = Fin 50\<rparr>,
      weather = [],
      wind = \<lparr>speed = Fin 2\<rparr>,
      dt_txt = None\<rparr>"

function digits :: "nat \<Rightarrow> string" where
  "digits n =
     (if n < 10 then [''0123456789'' ! n]
      else digits (n div 10) @ [''0123456789'' ! (n mod 10)])"
  by pat_completeness auto
termination
  by (relation "measure (\<lambda>n. n)") auto

declare digits.simps [simp del]

definition whole_number_text :: "number \<Rightarrow> string" where
  "whole_number_text n =
     (case n of
        NaN \<Rightarrow> ''NaN''
      | PInf \<Rightarrow> ''Infinity''
      | NInf \<Rightarrow> ''-Infinity''
      | Fin x \<Rightarrow> (if x < 0 then ''-'' @ digits (nat \<lfloor>- x\<rfloor>) else digits (nat \<lfloor>x\<rfloor>)))"

definition world ::
  "(exn + OpenWeatherResponse) \<Rightarrow> (exn + OpenWeatherResponse list) \<Rightarrow> env" where
  "world current forecast =
     \<lparr>get_current = (\<lambda>city. current),
      get_forecast = (\<lambda>city count. forecast),
      now = ''2024-04-30T23:30:00.000Z'',
      number_text = whole_number_text\<rparr>"

definition paris :: jsval where
  "paris = Some (JObj [(''city'', JStr ''Paris'')])"

definition paris_days :: "number \<Rightarrow> jsval" where
  "paris_days n = Some (JObj [(''city'', JStr ''Paris''), (''days'', JNum n)])"

definition failure :: "AxiosResponse option \<Rightarrow> exn" where
  "failure r = AxiosError \<lparr>response = r, message = ''Request failed with status code 500''\<rparr>"

section \<open>The library functions\<close>

lemma split_not_Nil: "split sep s \<noteq> []"
  by (subst split.simps) (simp split: list.split)

lemma hd_split: "hd (split sep s) = takeWhile (\<lambda>c. c \<noteq> sep) s"
  by (subst split.simps) (simp split: list.split)

lemma split0_takeWhile: "split0 sep s = takeWhile (\<lambda>c. c \<noteq> sep) s"
  by (simp add: split0_def hd_split)

lemma MAX_VALUE_gt: "40 < MAX_VALUE"
  by (simp add: MAX_VALUE_def)

lemma MAX_VALUE_lt: "MAX_VALUE < 2 ^ 1024"
proof -
  have "(2 ^ 53 - 1) * (2 ^ 971 :: real) < 2 ^ 53 * 2 ^ 971"
    by (intro mult_strict_right_mono) simp_all
  also have "\<dots> = (2 ^ 1024 :: real)" by (simp only: power_add [symmetric]) simp
  finally show ?thesis by (simp only: MAX_VALUE_def)
qed

lemma times_8:
  "times_number (Fin x) (Fin 8) =
     (if x * 8 < - MAX_VALUE then NInf else if MAX_VALUE < x * 8 then PInf else Fin (x * 8))"
  using MAX_VALUE_gt by (simp add: times_number.simps)

lemma times_8_small:
  assumes "\<bar>x\<bar> \<le> 5"
  shows "times_number (Fin x) (Fin 8) = Fin (x * 8)"
proof -
  from assms have "- 5 \<le> x" and "x \<le> 5" by (simp_all add: abs_le_iff)
  then have "- 40 \<le> x * 8" and "x * 8 \<le> 40" by simp_all
  with MAX_VALUE_gt have "\<not> x * 8 < - MAX_VALUE" and "\<not> MAX_VALUE < x * 8" by simp_all
  then show ?thesis by (simp add: times_8)
qed

section \<open>The forecast loop\<close>

lemma forecast_day_Inl:
  "forecast_day e x = Inl err \<longleftrightarrow> weather x = [] \<and> err = TypeError"
  by (auto simp: forecast_day_def first_description_def Let_def split: list.splits)

lemma forecast_day_Inr:
  "forecast_day e x = Inr d \<longleftrightarrow>
     (\<exists>w ws. weather x = w # ws \<and>
        d = \<lparr>date = (case dt_txt x of Some t \<Rightarrow> split0 (CHR '' '') t
                                  | None \<Rightarrow> split0 (CHR ''T'') (now e)),
              temperature = temp (main x), conditions = description w\<rparr>)"
  by (auto simp: forecast_day_def first_description_def Let_def split: list.splits)

lemma loop_count_step:
  "i < n \<Longrightarrow> (n - i + 7) div 8 = Suc ((n - (i + 8) + 7) div 8)" for i n :: nat
proof (cases "i + 8 \<le> n")
  case True
  then have "n - i + 7 = (n - (i + 8) + 7) + 8" by simp
  then have "(n - i + 7) div 8 = ((n - (i + 8) + 7) + 8) div 8" by (rule arg_cong)
  also have "\<dots> = Suc ((n - (i + 8) + 7) div 8)" by (rule div_add_self2 [THEN trans]) simp_all
  finally show ?thesis .
next
  case False
  assume "i < n"
  with False obtain d where d: "n - i = Suc d" and "d < 7" and z: "n - (i + 8) = 0"
    by (cases "n - i") simp_all
  then have "(d + 8) div 8 = 1" by simp
  with d z show ?thesis by (simp add: add.commute)
qed

lemma loop_count_index:
  "i + 8 * k < n \<Longrightarrow> k < (n - i + 7) div 8" for i k n :: nat
proof -
  assume "i + 8 * k < n"
  then have "Suc k * 8 \<le> n - i + 7" by simp
  then have "Suc k \<le> (n - i + 7) div 8" by (simp only: less_eq_div_iff_mult_less_eq zero_less_numeral)
  then show ?thesis by simp
qed

lemma loop_index_count:
  "k < (n - i + 7) div 8 \<Longrightarrow> i + 8 * k < n" for i k n :: nat
proof -
  assume "k < (n - i + 7) div 8"
  then have "Suc k \<le> (n - i + 7) div 8" by simp
  then have "Suc k * 8 \<le> n - i + 7" by (simp only: less_eq_div_iff_mult_less_eq zero_less_numeral)
  then show ?thesis by simp
qed

lemma forecast_loop_Inr:
  "forecast_loop e list i acc = Inr fs \<Longrightarrow>
     length fs = length acc + (length list - i + 7) div 8 \<and>
     (\<forall>k < length acc. fs ! k = acc ! k) \<and>
     (\<forall>k. length acc \<le> k \<and> k < length fs \<longrightarrow>
        forecast_day e (list ! (i + 8 * (k - length acc))) = Inr (fs ! k))"
proof (induction e list i acc rule: forecast_loop.induct)
  case (1 e list i forecasts)
  show ?case
  proof (cases "i < length list")
    case False
    with "1.prems" have "fs = forecasts" by (simp add: forecast_loop.simps)
    with False show ?thesis by auto
  next
    case True
    from True "1.prems" obtain day where
      day: "forecast_day e (list ! i) = Inr day" and
      rest: "forecast_loop e list (i + 8) (forecasts @ [day]) = Inr fs"
      by (subst (asm) forecast_loop.simps) (auto split: sum.splits)
    note IH = "1.IH" [OF True day rest]
    from IH have len: "length fs = length forecasts + (length list - i + 7) div 8"
      using loop_count_step [OF True] by simp
    from IH have old: "\<forall>k < Suc (length forecasts). fs ! k = (forecasts @ [day]) ! k"
      by simp
    from IH have new: "\<forall>k. Suc (length forecasts) \<le> k \<and> k < length fs \<longrightarrow>
        forecast_day e (list ! (i + 8 + 8 * (k - Suc (length forecasts)))) = Inr (fs ! k)"
      by simp
    have a: "\<forall>k < length forecasts. fs ! k = forecasts ! k"
      using old by (auto simp: nth_append)
    have b: "forecast_day e (list ! (i + 8 * (k - length forecasts))) = Inr (fs ! k)"
      if k: "length forecasts \<le> k" "k < length fs" for k
    proof (cases "k = length forecasts")
      case True
      with old have "fs ! k = day" by (auto simp: nth_append)
      with True day show ?thesis by simp
    next
      case False
      with k have k': "Suc (length forecasts) \<le> k" by simp
      then have eq: "i + 8 + 8 * (k - Suc (length forecasts)) = i + 8 * (k - length forecasts)"
        by arith
      from new k' k have
        "forecast_day e (list ! (i + 8 + 8 * (k - Suc (length forecasts)))) = Inr (fs ! k)"
        by blast
      then show ?thesis unfolding eq .
    qed
    show ?thesis
    proof (intro conjI allI impI)
      show "length fs = length forecasts + (length list - i + 7) div 8" by (rule len)
    next
      fix k assume "k < length forecasts"
      with a show "fs ! k = forecasts ! k" by simp
    next
      fix k assume "length forecasts \<le> k \<and> k < length fs"
      then show "forecast_day e (list ! (i + 8 * (k - length forecasts))) = Inr (fs ! k)"
        using b by simp
    qed
  qed
qed

lemma forecast_loop_Inl:
  "forecast_loop e list i acc = Inl err \<Longrightarrow>
     err = TypeError \<and> (\<exists>k. i + 8 * k < length list \<and> weather (list ! (i + 8 * k)) = [])"
proof (induction e list i acc rule: forecast_loop.induct)
  case (1 e list i forecasts)
  from "1.prems" have True: "i < length list"
    by (subst (asm) forecast_loop.simps) (simp split: if_splits)
  show ?case
  proof (cases "forecast_day e (list ! i)")
    case (Inl x)
    with True "1.prems" have "x = err"
      by (subst (asm) forecast_loop.simps) simp
    with Inl have "weather (list ! i) = []" "err = TypeError"
      by (simp_all add: forecast_day_Inl)
    with True show ?thesis by (intro conjI exI [of _ 0]) simp_all
  next
    case (Inr day)
    with True "1.prems" have rest: "forecast_loop e list (i + 8) (forecasts @ [day]) = Inl err"
      by (subst (asm) forecast_loop.simps) simp
    from "1.IH" [OF True Inr rest] obtain k where
      "err = TypeError" "i + 8 + 8 * k < length list" "weather (list ! (i + 8 + 8 * k)) = []"
      by blast
    then show ?thesis by (intro conjI exI [of _ "Suc k"]) (simp_all add: add.assoc)
  qed
qed

lemma forecast_loop_throws:
  "i + 8 * k < length list \<Longrightarrow> weather (list ! (i + 8 * k)) = [] \<Longrightarrow>
     forecast_loop e list i acc = Inl TypeError"
proof (cases "forecast_loop e list i acc")
  case (Inl err)
  then show ?thesis using forecast_loop_Inl [OF Inl] by simp
next
  case (Inr fs)
  assume k: "i + 8 * k < length list" and w: "weather (list ! (i + 8 * k)) = []"
  from forecast_loop_Inr [OF Inr] have
    len: "length fs = length acc + (length list - i + 7) div 8" and
    ent: "\<And>j. length acc \<le> j \<Longrightarrow> j < length fs \<Longrightarrow>
        forecast_day e (list ! (i + 8 * (j - length acc))) = Inr (fs ! j)"
    by blast+
  from k have "k < (length list - i + 7) div 8" by (rule loop_count_index)
  with len have "length acc + k < length fs" by simp
  from ent [OF _ this] have "forecast_day e (list ! (i + 8 * k)) = Inr (fs ! (length acc + k))"
    by simp
  with w show ?thesis by (simp add: forecast_day_Inr)
qed

lemma forecast_loop_returns:
  assumes "\<forall>k. 8 * k < length list \<longrightarrow> weather (list ! (8 * k)) \<noteq> []"
  shows "\<exists>fs. forecast_loop e list 0 [] = Inr fs \<and>
           length fs = (length list + 7) div 8 \<and>
           (\<forall>k < length fs. 8 * k < length list \<and>
              forecast_day e (list ! (8 * k)) = Inr (fs ! k))"
proof (cases "forecast_loop e list 0 []")
  case (Inl err)
  from forecast_loop_Inl [OF Inl] assms show ?thesis by auto
next
  case (Inr fs)
  from forecast_loop_Inr [OF Inr] have
    len: "length fs = (length list + 7) div 8" and
    ent: "\<forall>k. k < length fs \<longrightarrow> forecast_day e (list ! (8 * k)) = Inr (fs ! k)"
    by simp_all
  have "8 * k < length list" if "k < length fs" for k
    using that loop_index_count [of k "length list" 0] by (simp add: len)
  with Inr len ent show ?thesis by simp
qed

lemma callTool_valid:
  assumes "isValidForecastArgs args"
  shows "callTool e ''get_forecast'' args =
     (case get_forecast e (args_city args) (times_number (effective_days args) (Fin 8)) of
        Inl error \<Rightarrow> tool_catch e error
      | Inr list \<Rightarrow>
          (case forecast_loop e list 0 [] of
             Inl error \<Rightarrow> tool_catch e error
           | Inr forecasts \<Rightarrow> Inr \<lparr>content = ForecastJson forecasts, isError = False\<rparr>),
      [\<lparr>endpoint = FORECAST, q = args_city args,
        cnt = Some (times_number (effective_days args) (Fin 8))\<rparr>])"
  using assms by (simp add: callTool_def Let_def)

lemma callTool_forecasts:
  assumes "isValidForecastArgs args"
    and "get_forecast e (args_city args) (times_number (effective_days args) (Fin 8)) = Inr list"
    and "\<forall>k. 8 * k < length list \<longrightarrow> weather (list ! (8 * k)) \<noteq> []"
  shows "\<exists>fs. fst (callTool e ''get_forecast'' args) =
             Inr \<lparr>content = ForecastJson fs, isError = False\<rparr> \<and>
           length fs = (length list + 7) div 8 \<and>
           (\<forall>k < length fs. 8 * k < length list \<and>
              forecast_day e (list ! (8 * k)) = Inr (fs ! k))"
proof -
  from forecast_loop_returns [OF assms(3)] obtain fs where
    "forecast_loop e list 0 [] = Inr fs" and
    rest: "length fs = (length list + 7) div 8 \<and>
       (\<forall>k < length fs. 8 * k < length list \<and> forecast_day e (list ! (8 * k)) = Inr (fs ! k))"
    by blast
  with assms(1,2) have "fst (callTool e ''get_forecast'' args) =
      Inr \<lparr>content = ForecastJson fs, isError = False\<rparr>"
    by (simp add: callTool_valid)
  with rest show ?thesis by blast
qed

lemma listing_length: "length (listing n) = n"
  by (simp add: listing_def)

lemma listing_nth: "k < n \<Longrightarrow> listing n ! k = sample_at k"
  by (simp add: listing_def)

lemma listing_weather: "\<forall>k. 8 * k < length (listing n) \<longrightarrow> weather (listing n ! (8 * k)) \<noteq> []"
  by (simp add: listing_length listing_nth sample_at_def)

lemma valid_paris: "isValidForecastArgs paris" "isValidForecastArgs (paris_days n)"
  by (simp_all add: isValidForecastArgs_def paris_def paris_days_def)

lemma world_simps:
  "get_current (world c f) city = c"
  "get_forecast (world c f) city n = f"
  "now (world c f) = ''2024-04-30T23:30:00.000Z''"
  "number_text (world c f) = whole_number_text"
  by (simp_all add: world_def)


lemma ceil8_le: "n \<le> d * 8 \<Longrightarrow> (n + 7) div 8 \<le> d" for n d :: nat
proof -
  assume "n \<le> d * 8"
  then have "(n + 7) div 8 \<le> (d * 8 + 7) div 8" by (intro div_le_mono) simp
  then show ?thesis by simp
qed

lemma ceil8_le_self: "(n + 7) div 8 \<le> n" for n :: nat
proof (cases "n = 0")
  case True
  then show ?thesis by simp
next
  case False
  then have "(n + 7) div 8 \<le> (n * 8) div 8" by (intro div_le_mono) simp
  then show ?thesis by simp
qed

lemma ceil8_less_iff: "k < (n + 7) div 8 \<longleftrightarrow> 8 * k < n" for k n :: nat
  using loop_count_index [of 0 k n] loop_index_count [of k n 0] by auto

lemma ceil8_bounds:
  fixes n :: nat
  shows "n \<le> 8 * ((n + 7) div 8)" and "8 * ((n + 7) div 8) \<le> n + 7"
proof -
  have "\<not> 8 * ((n + 7) div 8) < n"
    using ceil8_less_iff [of "(n + 7) div 8" n] by simp
  then show "n \<le> 8 * ((n + 7) div 8)" by simp
  show "8 * ((n + 7) div 8) \<le> n + 7" by (rule times_div_less_eq_dividend)
qed

lemma forecast_day_sample_at:
  "forecast_day e (sample_at k) =
     Inr \<lparr>date = ''2024-05-01'', temperature = Fin (real k), conditions = ''clear sky''\<rparr>"
  by (simp add: forecast_day_def first_description_def sample_at_def split0_takeWhile)

lemma forecast_loop_listing_24:
  "forecast_loop e (listing 24) 0 [] =
     Inr [\<lparr>date = ''2024-05-01'', temperature = Fin 0, conditions = ''clear sky''\<rparr>,
          \<lparr>date = ''2024-05-01'', temperature = Fin 8, conditions = ''clear sky''\<rparr>,
          \<lparr>date = ''2024-05-01'', temperature = Fin 16, conditions = ''clear sky''\<rparr>]"
  by (simp add: forecast_loop.simps listing_length listing_nth forecast_day_sample_at)

lemma forecast_loop_listing_40:
  "forecast_loop e (listing 40) 0 [] =
     Inr [\<lparr>date = ''2024-05-01'', temperature = Fin 0, conditions = ''clear sky''\<rparr>,
          \<lparr>date = ''2024-05-01'', temperature = Fin 8, conditions = ''clear sky''\<rparr>,
          \<lparr>date = ''2024-05-01'', temperature = Fin 16, conditions = ''clear sky''\<rparr>,
          \<lparr>date = ''2024-05-01'', temperature = Fin 24, conditions = ''clear sky''\<rparr>,
          \<lparr>date = ''2024-05-01'', temperature = Fin 32, conditions = ''clear sky''\<rparr>]"
  by (simp add: forecast_loop.simps listing_length listing_nth forecast_day_sample_at)

section \<open>The validator\<close>

lemma valid_object:
  "isValidForecastArgs v \<longleftrightarrow>
     (\<exists>kvs c. v = Some (JObj kvs) \<and> map_of kvs ''city'' = Some (JStr c) \<and>
        (map_of kvs ''days'' = None \<or> (\<exists>n. map_of kvs ''days'' = Some (JNum n))))"
proof (cases v)
  case None
  then show ?thesis by (simp add: isValidForecastArgs_def)
next
  case (Some j)
  show ?thesis
  proof (cases j)
    case (JObj kvs)
    have str: "typeof x = ''string'' \<longleftrightarrow> (\<exists>c. x = Some (JStr c))" for x
      by (cases x rule: typeof.cases) simp_all
    have num: "typeof x = ''number'' \<longleftrightarrow> (\<exists>n. x = Some (JNum n))" for x
      by (cases x rule: typeof.cases) simp_all
    from Some JObj show ?thesis
      by (auto simp: isValidForecastArgs_def str num)
  qed (simp_all add: Some isValidForecastArgs_def)
qed


text \<open>
  Claim C6. \<open>isValidForecastArgs\<close> accepts a raw input exactly when it is an object with
  a \<open>city\<close> property holding a string whose \<open>days\<close> property, when there is one, holds
  a number. Everything else is rejected: an input that is not an object, an object
  without \<open>city\<close>, with a \<open>city\<close> that is not a string, or with a \<open>days\<close> that is not a
  number. With a string \<open>city\<close>, every number is accepted as \<open>days\<close>, whatever its value.
\<close>

theorem validator_accepts_iff:
  "(isValidForecastArgs v \<longleftrightarrow>
      (\<exists>kvs c. v = Some (JObj kvs) \<and> map_of kvs ''city'' = Some (JStr c) \<and>
         (\<forall>d. map_of kvs ''days'' = Some d \<longrightarrow> (\<exists>n. d = JNum n)))) \<and>
   (map_of kvs ''city'' = Some (JStr c) \<and> map_of kvs ''days'' = Some (JNum n)
      \<longrightarrow> isValidForecastArgs (Some (JObj kvs)))"
proof -
  have days: "(map_of xs ''days'' = None \<or> (\<exists>n. map_of xs ''days'' = Some (JNum n))) \<longleftrightarrow>
      (\<forall>d. map_of xs ''days'' = Some d \<longrightarrow> (\<exists>n. d = JNum n))" for xs :: "(string \<times> json) list"
    by (cases "map_of xs ''days''") auto
  show ?thesis
    unfolding valid_object days by auto
qed

theorem validator_accepts_iff_witness:
  "isValidForecastArgs (paris_days (Fin (- 7))) \<and>
   isValidForecastArgs paris \<and>
   \<not> isValidForecastArgs (Some (JObj [(''days'', JNum (Fin 2))])) \<and>
   \<not> isValidForecastArgs (Some (JObj [(''city'', JNum (Fin 2))])) \<and>
   \<not> isValidForecastArgs (Some (JObj [(''city'', JStr ''Paris''), (''days'', JStr ''2'')])) \<and>
   \<not> isValidForecastArgs (Some (JStr ''Paris'')) \<and>
   \<not> isValidForecastArgs (Some JNull) \<and>
   \<not> isValidForecastArgs None"
  using validator_accepts_iff [of "paris_days (Fin (- 7))" "[]" "[]" NaN]
    validator_accepts_iff [of paris "[]" "[]" NaN]
    validator_accepts_iff [of "Some (JObj [(''days'', JNum (Fin 2))])" "[]" "[]" NaN]
    validator_accepts_iff [of "Some (JObj [(''city'', JNum (Fin 2))])" "[]" "[]" NaN]
    validator_accepts_iff [of "Some (JObj [(''city'', JStr ''Paris''), (''days'', JStr ''2'')])" "[]" "[]" NaN]
    validator_accepts_iff [of "Some (JStr ''Paris'')" "[]" "[]" NaN]
    validator_accepts_iff [of "Some JNull" "[]" "[]" NaN]
    validator_accepts_iff [of "None" "[]" "[]" NaN]
  by (simp add: paris_def paris_days_def)

section \<open>Routing\<close>

text \<open>
  Claim C3 as stated fails in its resource half. Reading the unknown URI
  \<open>weather://Nowhere/current\<close> throws a fault whose code is \<open>InvalidRequest\<close>, not a
  "not found" code (\<open>MethodNotFound\<close> is the only such code the handlers use).
\<close>

theorem unknown_resource_counterexample:
  "fst (readResource (world (Inr (sample_at 0)) (Inr (listing 8)))
          ''weather://Nowhere/current'') =
     Inl (McpError InvalidRequest ''Unknown resource: weather://Nowhere/current'') \<and>
   fst (readResource (world (Inr (sample_at 0)) (Inr (listing 8)))
          ''weather://Nowhere/current'') \<noteq>
     Inl (McpError MethodNotFound ''Unknown resource: weather://Nowhere/current'')"
  by (simp add: readResource_def DEFAULT_CITY_def)

text \<open>
  Claim C3, amended. A resource read whose URI is not the URI of the default city throws
  the protocol fault \<open>InvalidRequest\<close> with the message \<open>Unknown resource: \<dots>\<close>, and a
  tool call whose name is not \<open>get_forecast\<close> throws \<open>MethodNotFound\<close>; in both cases
  the log of network calls is empty.
\<close>

theorem unknown_target_faults:
  "(request_uri \<noteq> ''weather://San Francisco/current'' \<longrightarrow>
      readResource e request_uri =
        (Inl (McpError InvalidRequest (''Unknown resource: '' @ request_uri)), [])) \<and>
   (name \<noteq> ''get_forecast'' \<longrightarrow>
      callTool e name args = (Inl (McpError MethodNotFound (''Unknown tool: '' @ name)), []))"
  by (simp add: readResource_def callTool_def DEFAULT_CITY_def)

theorem unknown_target_faults_witness:
  "readResource (world (Inr (sample_at 0)) (Inr (listing 8))) ''weather://Tokyo/current'' =
     (Inl (McpError InvalidRequest ''Unknown resource: weather://Tokyo/current''), []) \<and>
   callTool (world (Inr (sample_at 0)) (Inr (listing 8))) ''get_weather'' paris =
     (Inl (McpError MethodNotFound ''Unknown tool: get_weather''), [])"
  using unknown_target_faults [of "''weather://Tokyo/current''"
      "world (Inr (sample_at 0)) (Inr (listing 8))" "''get_weather''" paris]
  by simp

text \<open>
  Claim C7. A \<open>get_forecast\<close> call whose arguments fail validation throws the protocol
  fault \<open>InvalidParams\<close> and makes no network call; whatever the tool name, a call with
  invalid arguments leaves the log of network calls empty.
\<close>

theorem invalid_arguments_fault:
  assumes "\<not> isValidForecastArgs args"
  shows "callTool e ''get_forecast'' args =
           (Inl (McpError InvalidParams ''Invalid forecast arguments''), []) \<and>
         snd (callTool e name args) = []"
  using assms by (simp add: callTool_def)

theorem invalid_arguments_fault_witness:
  "callTool (world (Inr (sample_at 0)) (Inr (listing 8))) ''get_forecast''
     (Some (JObj [(''days'', JNum (Fin 3))])) =
     (Inl (McpError InvalidParams ''Invalid forecast arguments''), []) \<and>
   snd (callTool (world (Inr (sample_at 0)) (Inr (listing 8))) ''get_forecast''
     (Some (JObj [(''days'', JNum (Fin 3))]))) = []"
  using invalid_arguments_fault [of "Some (JObj [(''days'', JNum (Fin 3))])"
      "world (Inr (sample_at 0)) (Inr (listing 8))" "''get_forecast''"]
  by (simp add: isValidForecastArgs_def)

section \<open>The day count\<close>

text \<open>
  Claim C1 as stated fails. The arguments \<open>{city: "Paris", days: -2}\<close> pass validation,
  the day count is \<open>-2\<close>, outside \<open>[1,5]\<close>, and the request goes out with \<open>cnt = -16\<close>.
  With \<open>days: 0\<close> the day count is 3, not \<open>min(0, 5)\<close>.
\<close>

theorem days_counterexample:
  "isValidForecastArgs (paris_days (Fin (- 2))) \<and>
   effective_days (paris_days (Fin (- 2))) = Fin (- 2) \<and>
   snd (callTool (world (Inr (sample_at 0)) (Inr [])) ''get_forecast'' (paris_days (Fin (- 2)))) =
     [\<lparr>endpoint = FORECAST, q = ''Paris'', cnt = Some (Fin (- 16))\<rparr>] \<and>
   isValidForecastArgs (paris_days (Fin 0)) \<and>
   effective_days (paris_days (Fin 0)) = Fin 3"
proof -
  have eff: "effective_days (paris_days (Fin (- 2))) = Fin (- 2)"
    "effective_days (paris_days (Fin 0)) = Fin 3"
    by (simp_all add: effective_days_def args_days_def paris_days_def)
  have city: "args_city (paris_days n) = ''Paris''" for n
    by (simp add: args_city_def paris_days_def)
  show ?thesis
    by (simp add: valid_paris callTool_valid eff city times_8_small)
qed

text \<open>
  Claim C1, amended. For validated arguments the day count is 3 when \<open>days\<close> is absent,
  zero or \<open>NaN\<close>, and \<open>min(days, 5)\<close> for every other number. It never exceeds 5, and it
  lies in \<open>[1,5]\<close> when \<open>days\<close> is at least 1. The request carries as \<open>cnt\<close> what
  \<open>days * 8\<close> evaluates to: eight times the day count, and \<open>-Infinity\<close> when that
  product lies below \<open>-MAX_VALUE\<close> or the day count is \<open>-Infinity\<close>.
\<close>

theorem effective_days_value:
  assumes "isValidForecastArgs (Some (JObj kvs))"
  shows "(map_of kvs ''days'' = None \<longrightarrow> effective_days (Some (JObj kvs)) = Fin 3) \<and>
         (map_of kvs ''days'' = Some (JNum (Fin r)) \<and> r \<noteq> 0 \<longrightarrow>
            effective_days (Some (JObj kvs)) = Fin (min r 5)) \<and>
         (map_of kvs ''days'' = Some (JNum (Fin r)) \<and> 1 \<le> r \<longrightarrow>
            1 \<le> min r 5 \<and> min r 5 \<le> 5) \<and>
         (map_of kvs ''days'' = Some (JNum (Fin 0)) \<or> map_of kvs ''days'' = Some (JNum NaN) \<longrightarrow>
            effective_days (Some (JObj kvs)) = Fin 3) \<and>
         (map_of kvs ''days'' = Some (JNum PInf) \<longrightarrow> effective_days (Some (JObj kvs)) = Fin 5) \<and>
         (map_of kvs ''days'' = Some (JNum NInf) \<longrightarrow> effective_days (Some (JObj kvs)) = NInf) \<and>
         effective_days (Some (JObj kvs)) \<noteq> NaN \<and>
         effective_days (Some (JObj kvs)) \<noteq> PInf \<and>
         (\<forall>x. effective_days (Some (JObj kvs)) = Fin x \<longrightarrow> x \<le> 5) \<and>
         snd (callTool e ''get_forecast'' (Some (JObj kvs))) =
           [\<lparr>endpoint = FORECAST, q = args_city (Some (JObj kvs)),
             cnt = Some (times_number (effective_days (Some (JObj kvs))) (Fin 8))\<rparr>] \<and>
         (\<forall>x. effective_days (Some (JObj kvs)) = Fin x \<longrightarrow>
            times_number (effective_days (Some (JObj kvs))) (Fin 8) =
              (if x * 8 < - MAX_VALUE then NInf else Fin (x * 8))) \<and>
         (effective_days (Some (JObj kvs)) = NInf \<longrightarrow>
            times_number (effective_days (Some (JObj kvs))) (Fin 8) = NInf)"
proof -
  from assms have "map_of kvs ''days'' = None \<or> (\<exists>n. map_of kvs ''days'' = Some (JNum n))"
    by (simp add: valid_object)
  then consider "map_of kvs ''days'' = None"
    | "map_of kvs ''days'' = Some (JNum NaN)"
    | "map_of kvs ''days'' = Some (JNum PInf)"
    | "map_of kvs ''days'' = Some (JNum NInf)"
    | x where "map_of kvs ''days'' = Some (JNum (Fin x))"
    by (metis number.exhaust)
  then have "(map_of kvs ''days'' = None \<longrightarrow> effective_days (Some (JObj kvs)) = Fin 3) \<and>
         (map_of kvs ''days'' = Some (JNum (Fin r)) \<and> r \<noteq> 0 \<longrightarrow>
            effective_days (Some (JObj kvs)) = Fin (min r 5)) \<and>
         (map_of kvs ''days'' = Some (JNum (Fin r)) \<and> 1 \<le> r \<longrightarrow>
            1 \<le> min r 5 \<and> min r 5 \<le> 5) \<and>
         (map_of kvs ''days'' = Some (JNum (Fin 0)) \<or> map_of kvs ''days'' = Some (JNum NaN) \<longrightarrow>
            effective_days (Some (JObj kvs)) = Fin 3) \<and>
         (map_of kvs ''days'' = Some (JNum PInf) \<longrightarrow> effective_days (Some (JObj kvs)) = Fin 5) \<and>
         (map_of kvs ''days'' = Some (JNum NInf) \<longrightarrow> effective_days (Some (JObj kvs)) = NInf) \<and>
         effective_days (Some (JObj kvs)) \<noteq> NaN \<and>
         effective_days (Some (JObj kvs)) \<noteq> PInf \<and>
         (\<forall>x. effective_days (Some (JObj kvs)) = Fin x \<longrightarrow> x \<le> 5)"
    by cases (auto simp: effective_days_def args_days_def)
  moreover have "times_number (effective_days (Some (JObj kvs))) (Fin 8) =
      (if x * 8 < - MAX_VALUE then NInf else Fin (x * 8))"
    if "effective_days (Some (JObj kvs)) = Fin x" for x
  proof -
    from calculation that have "x \<le> 5" by blast
    with MAX_VALUE_gt have "\<not> MAX_VALUE < x * 8" by simp
    with that show ?thesis by (simp add: times_8)
  qed
  moreover have "effective_days (Some (JObj kvs)) = NInf \<longrightarrow>
      times_number (effective_days (Some (JObj kvs))) (Fin 8) = NInf"
    by (simp add: times_number.simps)
  ultimately show ?thesis using assms by (simp add: callTool_valid)
qed

theorem effective_days_value_witness:
  "effective_days paris = Fin 3 \<and>
   effective_days (paris_days (Fin 2)) = Fin 2 \<and>
   effective_days (paris_days (Fin 9)) = Fin 5 \<and>
   snd (callTool (world (Inr (sample_at 0)) (Inr [])) ''get_forecast'' (paris_days (Fin 9))) =
     [\<lparr>endpoint = FORECAST, q = ''Paris'', cnt = Some (Fin 40)\<rparr>] \<and>
   snd (callTool (world (Inr (sample_at 0)) (Inr [])) ''get_forecast''
          (paris_days (Fin (- (2 ^ 1022))))) =
     [\<lparr>endpoint = FORECAST, q = ''Paris'', cnt = Some NInf\<rparr>]"
proof -
  let ?e = "world (Inr (sample_at 0)) (Inr [])"
  define big :: real where "big = - (2 ^ 1022)"
  have neg: "big < 0" "big \<noteq> 0" by (simp_all add: big_def)
  then have small: "min big 5 = big" by simp
  have overflow: "big * 8 < - MAX_VALUE"
  proof -
    have "(2 ^ 1022 :: real) * 8 = 2 ^ 1022 * 2 ^ 3" by simp
    also have "\<dots> = 2 ^ 1025" by (simp only: power_add [symmetric]) simp
    finally have "(2 ^ 1022 :: real) * 8 = 2 ^ 1025" .
    moreover have "(2 ^ 1024 :: real) < 2 ^ 1025" by (rule power_strict_increasing) simp_all
    ultimately have "MAX_VALUE < 2 ^ 1022 * 8" using MAX_VALUE_lt by linarith
    then show ?thesis by (simp add: big_def)
  qed
  have v: "isValidForecastArgs (Some (JObj [(''city'', JStr ''Paris'')]))"
    "isValidForecastArgs (Some (JObj [(''city'', JStr ''Paris''), (''days'', JNum n)]))" for n
    using valid_paris(1) valid_paris(2) [of n] by (simp_all add: paris_def paris_days_def)
  from effective_days_value [OF v(1), of 1 ?e]
  have "effective_days paris = Fin 3" by (simp add: paris_def)
  moreover from effective_days_value [OF v(2), of "Fin 2" 2 ?e]
  have "effective_days (paris_days (Fin 2)) = Fin 2" by (simp add: paris_days_def)
  moreover from effective_days_value [OF v(2), of "Fin 9" 9 ?e]
  have "effective_days (paris_days (Fin 9)) = Fin 5 \<and>
      snd (callTool ?e ''get_forecast'' (paris_days (Fin 9))) =
        [\<lparr>endpoint = FORECAST, q = ''Paris'', cnt = Some (Fin 40)\<rparr>]"
    using MAX_VALUE_gt by (simp add: paris_days_def args_city_def)
  moreover from effective_days_value [OF v(2), of "Fin big" big ?e]
  have "snd (callTool ?e ''get_forecast'' (paris_days (Fin big))) =
        [\<lparr>endpoint = FORECAST, q = ''Paris'', cnt = Some NInf\<rparr>]"
    using neg small overflow by (simp add: paris_days_def args_city_def)
  ultimately show ?thesis unfolding big_def by simp
qed

section \<open>Upstream failures\<close>

lemma upstream_failure_is_error_result:
  assumes "isValidForecastArgs args"
    and "get_forecast e (args_city args) (times_number (effective_days args) (Fin 8)) =
           Inl (AxiosError err)"
    and "\<forall>r. response err = Some r \<longrightarrow> data r \<noteq> None \<and> data r \<noteq> Some JNull"
    and "\<forall>r v. response err = Some r \<and> get_prop (data r) ''message'' = Some v \<longrightarrow>
           (\<exists>t. ToString (number_text e) v = Inr t)"
  shows "\<exists>m. fst (callTool e ''get_forecast'' args) =
               Inr \<lparr>content = Plain (''Weather API error: '' @ m), isError = True\<rparr> \<and>
             (\<forall>r s. response err = Some r \<and> get_prop (data r) ''message'' = Some (JStr s)
                \<longrightarrow> m = s) \<and>
             (\<forall>r v. response err = Some r \<and> get_prop (data r) ''message'' = Some v \<and>
                    v \<noteq> JNull
                \<longrightarrow> ToString (number_text e) v = Inr m) \<and>
             (response err = None \<longrightarrow> m = message err) \<and>
             (\<forall>r. response err = Some r \<and>
                  (get_prop (data r) ''message'' = None \<or>
                   get_prop (data r) ''message'' = Some JNull)
                \<longrightarrow> m = message err)"
proof -
  have call: "fst (callTool e ''get_forecast'' args) = tool_catch e (AxiosError err)"
    using assms(1,2) by (simp add: callTool_valid)
  show ?thesis
  proof (cases "response err")
    case None
    then show ?thesis
      by (simp add: call tool_catch_def api_error_message_def)
  next
    case (Some r)
    with assms(3) obtain d where d: "data r = Some d" "d \<noteq> JNull" by auto
    show ?thesis
    proof (cases "get_prop (Some d) ''message''")
      case None
      with Some d show ?thesis
        by (cases d) (simp_all add: call tool_catch_def api_error_message_def)
    next
      case m: (Some v)
      show ?thesis
      proof (cases "v = JNull")
        case True
        with m Some d show ?thesis
          by (cases d) (simp_all add: call tool_catch_def api_error_message_def)
      next
        case False
        from assms(4) Some d m obtain t where t: "ToString (number_text e) v = Inr t"
          by auto
        have "api_error_message e err = Inr t"
          using Some d m False t
          by (cases d; cases v) (simp_all add: api_error_message_def)
        then have "fst (callTool e ''get_forecast'' args) =
            Inr \<lparr>content = Plain (''Weather API error: '' @ t), isError = True\<rparr>"
          by (simp add: call tool_catch_def)
        moreover have "\<forall>s. v = JStr s \<longrightarrow> t = s" using t by auto
        ultimately show ?thesis using Some d m False t by auto
      qed
    qed
  qed
qed

lemma upstream_failure_examples:
  "fst (callTool (world (Inr (sample_at 0))
          (Inl (failure (Some \<lparr>data = Some (JObj [(''cod'', JStr ''404''),
                                                (''message'', JStr ''city not found'')])\<rparr>))))
        ''get_forecast'' paris) =
     Inr \<lparr>content = Plain ''Weather API error: city not found'', isError = True\<rparr> \<and>
   fst (callTool (world (Inr (sample_at 0)) (Inl (failure None))) ''get_forecast'' paris) =
     Inr \<lparr>content = Plain ''Weather API error: Request failed with status code 500'',
          isError = True\<rparr> \<and>
   fst (callTool (world (Inr (sample_at 0))
          (Inl (failure (Some \<lparr>data = Some (JObj [(''message'', JNum (Fin 404))])\<rparr>))))
        ''get_forecast'' paris) =
     Inr \<lparr>content = Plain ''Weather API error: 404'', isError = True\<rparr>"
  by (simp add: valid_paris callTool_valid world_simps failure_def tool_catch_def
      api_error_message_def whole_number_text_def digits.simps)

text \<open>
  Claim C4. The \<open>catch\<close> block of the tool handler is meant to turn every axios error
  into a result flagged \<open>isError\<close>, and does so whenever the error's response, if there is
  one, has a body other than \<open>null\<close> whose \<open>message\<close> has a text
  (\<open>upstream_failure_is_error_result\<close>). It misses two cases, in which evaluating
  \<open>error.response?.data.message ?? error.message\<close> inside the template literal throws and
  the handler ends with a \<open>TypeError\<close>, a protocol fault: an error response whose body is
  \<open>null\<close>, and one whose \<open>message\<close> is an object with a \<open>toString\<close> property.
\<close>

theorem error_body_throws:
  "callTool (world (Inr (sample_at 0)) (Inl (failure (Some \<lparr>data = Some JNull\<rparr>))))
       ''get_forecast'' paris =
     (Inl TypeError, [\<lparr>endpoint = FORECAST, q = ''Paris'', cnt = Some (Fin 24)\<rparr>]) \<and>
   callTool (world (Inr (sample_at 0))
       (Inl (failure (Some \<lparr>data = Some (JObj [(''message'',
                                          JObj [(''toString'', JNum (Fin 0))])])\<rparr>))))
       ''get_forecast'' paris =
     (Inl TypeError, [\<lparr>endpoint = FORECAST, q = ''Paris'', cnt = Some (Fin 24)\<rparr>])"
proof -
  have "effective_days paris = Fin 3" "args_city paris = ''Paris''"
    by (simp_all add: effective_days_def args_days_def args_city_def paris_def)
  then show ?thesis
    by (simp add: valid_paris callTool_valid world_simps failure_def tool_catch_def
        api_error_message_def times_8_small)
qed

text \<open>
  Claim C9. An empty \<open>weather\<close> array makes the handler throw: the resource read when the
  current-conditions response has none, the forecast tool when any selected sample (index
  \<open>0, 8, 16, \<dots>\<close>) has none. The \<open>TypeError\<close> is rethrown as it is; no default stands in.
\<close>

theorem empty_weather_propagates:
  "(get_current e DEFAULT_CITY = Inr x \<and> weather x = [] \<longrightarrow>
      fst (readResource e (''weather://'' @ DEFAULT_CITY @ ''/current'')) = Inl TypeError) \<and>
   (isValidForecastArgs args \<and>
    get_forecast e (args_city args) (times_number (effective_days args) (Fin 8)) = Inr list \<and>
    8 * k < length list \<and> weather (list ! (8 * k)) = [] \<longrightarrow>
      fst (callTool e ''get_forecast'' args) = Inl TypeError)"
proof (intro conjI impI)
  assume "get_current e DEFAULT_CITY = Inr x \<and> weather x = []"
  then show "fst (readResource e (''weather://'' @ DEFAULT_CITY @ ''/current'')) = Inl TypeError"
    by (simp add: readResource_def weather_data_def first_description_def read_catch_def)
next
  assume a: "isValidForecastArgs args \<and>
    get_forecast e (args_city args) (times_number (effective_days args) (Fin 8)) = Inr list \<and>
    8 * k < length list \<and> weather (list ! (8 * k)) = []"
  then have "forecast_loop e list 0 [] = Inl TypeError"
    using forecast_loop_throws [of 0 k list e "[]"] by simp
  with a show "fst (callTool e ''get_forecast'' args) = Inl TypeError"
    by (simp add: callTool_valid tool_catch_def)
qed

theorem empty_weather_propagates_witness:
  "fst (readResource (world (Inr no_conditions) (Inr (listing 8 @ [no_conditions])))
          ''weather://San Francisco/current'') = Inl TypeError \<and>
   fst (callTool (world (Inr no_conditions) (Inr (listing 8 @ [no_conditions])))
          ''get_forecast'' paris) = Inl TypeError"
  using empty_weather_propagates [of "world (Inr no_conditions) (Inr (listing 8 @ [no_conditions]))"
      no_conditions paris "listing 8 @ [no_conditions]" 1]
  by (simp add: world_simps valid_paris DEFAULT_CITY_def no_conditions_def listing_length
      nth_append)

section \<open>The forecast tool\<close>

text \<open>
  Claim C10 as stated fails. A listing of one sample without a condition has
  \<open>\<lceil>1 / 8\<rceil> = 1\<close>, but the loop throws at index 0 and the tool returns no entry.
\<close>

theorem sample_without_condition_counterexample:
  "isValidForecastArgs (paris_days (Fin 1)) \<and>
   (length [no_conditions] + 7) div 8 = 1 \<and>
   fst (callTool (world (Inl TypeError) (Inr [no_conditions])) ''get_forecast''
          (paris_days (Fin 1))) = Inl TypeError"
proof -
  have "forecast_loop e [no_conditions] 0 [] = Inl TypeError" for e
    by (simp add: forecast_loop.simps forecast_day_def first_description_def no_conditions_def)
  then show ?thesis
    by (simp add: valid_paris callTool_valid world_simps tool_catch_def)
qed

text \<open>
  Claim C10, amended. When the forecast request is answered with a listing whose selected
  samples (index \<open>0, 8, 16, \<dots>\<close>) carry a condition, the tool returns exactly
  \<open>\<lceil>length list / 8\<rceil>\<close> entries: the count comes from the length of the listing alone,
  whatever \<open>days\<close> the arguments asked for.
\<close>

theorem forecast_count_from_listing_only:
  assumes "isValidForecastArgs args"
    and "get_forecast e (args_city args) (times_number (effective_days args) (Fin 8)) = Inr list"
    and "\<forall>k. 8 * k < length list \<longrightarrow> weather (list ! (8 * k)) \<noteq> []"
  shows "\<exists>fs. fst (callTool e ''get_forecast'' args) =
             Inr \<lparr>content = ForecastJson fs, isError = False\<rparr> \<and>
           length fs = (length list + 7) div 8"
  using callTool_forecasts [OF assms] by blast

theorem forecast_count_from_listing_only_witness:
  "\<exists>fs. fst (callTool (world (Inl TypeError) (Inr (listing 10))) ''get_forecast''
              (paris_days (Fin 1))) =
           Inr \<lparr>content = ForecastJson fs, isError = False\<rparr> \<and>
         length fs = 2"
  using forecast_count_from_listing_only [of "paris_days (Fin 1)"
      "world (Inl TypeError) (Inr (listing 10))" "listing 10"]
  by (simp add: valid_paris world_simps listing_weather listing_length)

text \<open>
  Claim C2 as stated fails. With \<open>days = 1\<close> and a listing of 40 samples (at least
  \<open>1 \<times> 8\<close>), the tool returns 5 entries: more than \<open>days\<close>, and not exactly \<open>days\<close>.
\<close>

theorem more_entries_than_days_counterexample:
  "isValidForecastArgs (paris_days (Fin 1)) \<and>
   effective_days (paris_days (Fin 1)) = Fin 1 \<and>
   length (listing 40) = 40 \<and>
   fst (callTool (world (Inl TypeError) (Inr (listing 40))) ''get_forecast''
          (paris_days (Fin 1))) =
     Inr \<lparr>content = ForecastJson
            [\<lparr>date = ''2024-05-01'', temperature = Fin 0, conditions = ''clear sky''\<rparr>,
             \<lparr>date = ''2024-05-01'', temperature = Fin 8, conditions = ''clear sky''\<rparr>,
             \<lparr>date = ''2024-05-01'', temperature = Fin 16, conditions = ''clear sky''\<rparr>,
             \<lparr>date = ''2024-05-01'', temperature = Fin 24, conditions = ''clear sky''\<rparr>,
             \<lparr>date = ''2024-05-01'', temperature = Fin 32, conditions = ''clear sky''\<rparr>],
          isError = False\<rparr>"
proof -
  have "effective_days (paris_days (Fin 1)) = Fin 1"
    by (simp add: effective_days_def args_days_def paris_days_def)
  then show ?thesis
    by (simp add: valid_paris callTool_valid world_simps listing_length forecast_loop_listing_40)
qed

text \<open>
  Claim C2, amended. For a finite day count \<open>days\<close>, whole or not, and a listing whose
  selected samples carry a condition: a listing of at most \<open>days \<times> 8\<close> samples gives at
  most \<open>\<lceil>days\<rceil>\<close> entries, one of exactly \<open>days \<times> 8\<close> samples gives exactly
  \<open>\<lceil>days\<rceil>\<close>, which is \<open>days\<close> when \<open>days\<close> is whole, and one of more than
  \<open>days \<times> 8\<close> samples gives more than \<open>days\<close>. There are never more entries than
  samples, and every entry is made from a sample of the listing.
\<close>

theorem forecast_count_bounds:
  assumes "isValidForecastArgs args"
    and "effective_days args = Fin days"
    and "get_forecast e (args_city args) (times_number (effective_days args) (Fin 8)) = Inr list"
    and "\<forall>k. 8 * k < length list \<longrightarrow> weather (list ! (8 * k)) \<noteq> []"
  shows "\<exists>fs. fst (callTool e ''get_forecast'' args) =
             Inr \<lparr>content = ForecastJson fs, isError = False\<rparr> \<and>
           (real (length list) \<le> days * 8 \<longrightarrow> int (length fs) \<le> \<lceil>days\<rceil>) \<and>
           (real (length list) = days * 8 \<longrightarrow> int (length fs) = \<lceil>days\<rceil>) \<and>
           (days \<in> \<int> \<and> real (length list) \<le> days * 8 \<longrightarrow> real (length fs) \<le> days) \<and>
           (days \<in> \<int> \<and> real (length list) = days * 8 \<longrightarrow> real (length fs) = days) \<and>
           (days * 8 < real (length list) \<longrightarrow> days < real (length fs)) \<and>
           length fs \<le> length list \<and>
           (\<forall>k < length fs. 8 * k < length list \<and>
              forecast_day e (list ! (8 * k)) = Inr (fs ! k))"
proof -
  from callTool_forecasts [OF assms(1,3,4)] obtain fs where
    res: "fst (callTool e ''get_forecast'' args) =
            Inr \<lparr>content = ForecastJson fs, isError = False\<rparr>" and
    len: "length fs = (length list + 7) div 8" and
    ent: "\<forall>k < length fs. 8 * k < length list \<and>
            forecast_day e (list ! (8 * k)) = Inr (fs ! k)"
    by blast
  let ?n = "length list" and ?m = "length fs"
  from ceil8_bounds [of ?n] have "?n \<le> 8 * ?m" and "8 * ?m \<le> ?n + 7"
    by (simp_all add: len)
  then have lo: "real ?n \<le> 8 * real ?m" and hi: "8 * real ?m \<le> real ?n + 7"
    by (metis of_nat_le_iff of_nat_mult of_nat_numeral, metis of_nat_le_iff of_nat_mult of_nat_numeral of_nat_add)
  have le: "int ?m \<le> \<lceil>days\<rceil>" if "real ?n \<le> days * 8"
  proof -
    from that hi have "real ?m - 1 < days" by linarith
    then show ?thesis by (simp add: le_ceiling_iff)
  qed
  have eq: "int ?m = \<lceil>days\<rceil>" if "real ?n = days * 8"
  proof -
    from that hi lo have "real_of_int (int ?m) - 1 < days" and "days \<le> real_of_int (int ?m)"
      by simp_all
    then show ?thesis by (rule ceiling_unique [symmetric])
  qed
  have whole: "real_of_int \<lceil>days\<rceil> = days" if "days \<in> \<int>"
    using that by (auto elim: Ints_cases)
  have le': "real ?m \<le> days" if "days \<in> \<int>" "real ?n \<le> days * 8"
  proof -
    have "real ?m = real_of_int (int ?m)" by simp
    also have "\<dots> \<le> real_of_int \<lceil>days\<rceil>"
      using le [OF that(2)] by (simp only: of_int_le_iff)
    also have "\<dots> = days" by (rule whole [OF that(1)])
    finally show ?thesis .
  qed
  have eq': "real ?m = days" if "days \<in> \<int>" "real ?n = days * 8"
  proof -
    have "real ?m = real_of_int (int ?m)" by simp
    also have "\<dots> = real_of_int \<lceil>days\<rceil>"
      using eq [OF that(2)] by (simp only:)
    also have "\<dots> = days" by (rule whole [OF that(1)])
    finally show ?thesis .
  qed
  have more: "days < real ?m" if "days * 8 < real ?n"
    using that lo by linarith
  have "?m \<le> ?n" by (simp add: len ceil8_le_self)
  with res ent le eq le' eq' more show ?thesis by blast
qed

theorem forecast_count_bounds_witness:
  "(\<exists>fs. fst (callTool (world (Inl TypeError) (Inr (listing 16))) ''get_forecast''
               (paris_days (Fin 2))) =
            Inr \<lparr>content = ForecastJson fs, isError = False\<rparr> \<and>
          length fs = 2) \<and>
   (\<exists>fs. fst (callTool (world (Inl TypeError) (Inr (listing 20))) ''get_forecast''
               (paris_days (Fin (5 / 2)))) =
            Inr \<lparr>content = ForecastJson fs, isError = False\<rparr> \<and>
          length fs = 3)"
proof
  have eff: "effective_days (paris_days (Fin 2)) = Fin 2"
    by (simp add: effective_days_def args_days_def paris_days_def)
  have whole: "(2::real) \<in> \<int>" by simp
  from forecast_count_bounds [of "paris_days (Fin 2)" 2
      "world (Inl TypeError) (Inr (listing 16))" "listing 16",
      OF valid_paris(2) eff _ listing_weather]
  obtain fs where
    "fst (callTool (world (Inl TypeError) (Inr (listing 16))) ''get_forecast''
              (paris_days (Fin 2))) =
           Inr \<lparr>content = ForecastJson fs, isError = False\<rparr>" and
    "(2::real) \<in> \<int> \<and> real (length (listing 16)) = 2 * 8 \<longrightarrow> real (length fs) = 2"
    by (auto simp: world_simps)
  with whole show "\<exists>fs. fst (callTool (world (Inl TypeError) (Inr (listing 16)))
               ''get_forecast'' (paris_days (Fin 2))) =
            Inr \<lparr>content = ForecastJson fs, isError = False\<rparr> \<and>
          length fs = 2"
    by (auto simp: listing_length)
next
  have eff: "effective_days (paris_days (Fin (5 / 2))) = Fin (5 / 2)"
    by (simp add: effective_days_def args_days_def paris_days_def)
  have c: "\<lceil>5 / 2 :: real\<rceil> = 3" by simp
  from forecast_count_bounds [of "paris_days (Fin (5 / 2))" "5 / 2"
      "world (Inl TypeError) (Inr (listing 20))" "listing 20",
      OF valid_paris(2) eff _ listing_weather]
  obtain fs where
    "fst (callTool (world (Inl TypeError) (Inr (listing 20))) ''get_forecast''
              (paris_days (Fin (5 / 2)))) =
           Inr \<lparr>content = ForecastJson fs, isError = False\<rparr>" and
    "real (length (listing 20)) = 5 / 2 * 8 \<longrightarrow> int (length fs) = \<lceil>5 / 2 :: real\<rceil>"
    by (auto simp: world_simps)
  with c show "\<exists>fs. fst (callTool (world (Inl TypeError) (Inr (listing 20)))
               ''get_forecast'' (paris_days (Fin (5 / 2)))) =
            Inr \<lparr>content = ForecastJson fs, isError = False\<rparr> \<and>
          length fs = 3"
    by (auto simp: listing_length)
qed

text \<open>
  Claim C5 as stated fails in its example. With \<open>{city: "Paris", days: 2}\<close> and a listing
  of 24 samples, the tool returns 3 entries, from the samples at index 0, 8 and 16.
\<close>

theorem listing_24_days_2_counterexample:
  "isValidForecastArgs (paris_days (Fin 2)) \<and>
   effective_days (paris_days (Fin 2)) = Fin 2 \<and>
   length (listing 24) = 24 \<and>
   callTool (world (Inl TypeError) (Inr (listing 24))) ''get_forecast'' (paris_days (Fin 2)) =
     (Inr \<lparr>content = ForecastJson
             [\<lparr>date = ''2024-05-01'', temperature = Fin 0, conditions = ''clear sky''\<rparr>,
              \<lparr>date = ''2024-05-01'', temperature = Fin 8, conditions = ''clear sky''\<rparr>,
              \<lparr>date = ''2024-05-01'', temperature = Fin 16, conditions = ''clear sky''\<rparr>],
           isError = False\<rparr>,
      [\<lparr>endpoint = FORECAST, q = ''Paris'', cnt = Some (Fin 16)\<rparr>])"
proof -
  have "effective_days (paris_days (Fin 2)) = Fin 2" "args_city (paris_days (Fin 2)) = ''Paris''"
    by (simp_all add: effective_days_def args_days_def args_city_def paris_days_def)
  then show ?thesis
    by (simp add: valid_paris callTool_valid world_simps listing_length forecast_loop_listing_24
        times_8_small)
qed

text \<open>
  Claim C5, amended. For a listing whose selected samples carry a condition, the entries
  are those of the samples at index \<open>0, 8, 16, \<dots>\<close> below the length of the listing, in
  this order, and entry \<open>k\<close> takes its temperature and its conditions from the sample at
  index \<open>8 k\<close>. A listing of 24 samples gives 3 entries whatever \<open>days\<close> is; a listing
  of 16 samples gives 2.
\<close>

theorem every_eighth_sample:
  assumes "isValidForecastArgs args"
    and "get_forecast e (args_city args) (times_number (effective_days args) (Fin 8)) = Inr list"
    and "\<forall>k. 8 * k < length list \<longrightarrow> weather (list ! (8 * k)) \<noteq> []"
  shows "\<exists>fs. fst (callTool e ''get_forecast'' args) =
             Inr \<lparr>content = ForecastJson fs, isError = False\<rparr> \<and>
           (\<forall>k. k < length fs \<longleftrightarrow> 8 * k < length list) \<and>
           (\<forall>k < length fs.
              temperature (fs ! k) = temp (main (list ! (8 * k))) \<and>
              conditions (fs ! k) = description (hd (weather (list ! (8 * k))))) \<and>
           (length list = 24 \<longrightarrow> length fs = 3) \<and>
           (length list = 16 \<longrightarrow> length fs = 2)"
proof -
  from callTool_forecasts [OF assms] obtain fs where
    res: "fst (callTool e ''get_forecast'' args) =
            Inr \<lparr>content = ForecastJson fs, isError = False\<rparr>" and
    len: "length fs = (length list + 7) div 8" and
    ent: "\<forall>k < length fs. forecast_day e (list ! (8 * k)) = Inr (fs ! k)"
    by blast
  have sel: "\<forall>k. k < length fs \<longleftrightarrow> 8 * k < length list"
    by (simp add: len ceil8_less_iff)
  have "temperature (fs ! k) = temp (main (list ! (8 * k))) \<and>
        conditions (fs ! k) = description (hd (weather (list ! (8 * k))))"
    if "k < length fs" for k
  proof -
    from ent that have "forecast_day e (list ! (8 * k)) = Inr (fs ! k)" by simp
    then show ?thesis by (auto simp: forecast_day_Inr)
  qed
  moreover have "length list = 24 \<longrightarrow> length fs = 3" "length list = 16 \<longrightarrow> length fs = 2"
    by (simp_all add: len)
  ultimately show ?thesis using res sel by blast
qed

theorem every_eighth_sample_witness:
  "\<exists>fs. fst (callTool (world (Inl TypeError) (Inr (listing 24))) ''get_forecast''
              (paris_days (Fin 2))) =
           Inr \<lparr>content = ForecastJson fs, isError = False\<rparr> \<and>
         length fs = 3 \<and>
         temperature (fs ! 1) = Fin 8 \<and>
         temperature (fs ! 2) = Fin 16"
proof -
  from every_eighth_sample [of "paris_days (Fin 2)"
      "world (Inl TypeError) (Inr (listing 24))" "listing 24",
      OF valid_paris(2) _ listing_weather]
  obtain fs where
    res: "fst (callTool (world (Inl TypeError) (Inr (listing 24))) ''get_forecast''
              (paris_days (Fin 2))) =
           Inr \<lparr>content = ForecastJson fs, isError = False\<rparr>" and
    len: "length fs = 3" and
    ent: "\<forall>k < length fs. temperature (fs ! k) = temp (main (listing 24 ! (8 * k)))"
    by (auto simp: world_simps listing_length)
  from ent len have "temperature (fs ! 1) = Fin 8" "temperature (fs ! 2) = Fin 16"
    by (simp_all add: listing_nth sample_at_def)
  with res len show ?thesis by blast
qed

text \<open>
  Claim C8. The date of the entry made from a selected sample is the part of the sample's
  \<open>dt_txt\<close> before its first space when the sample has a \<open>dt_txt\<close>, and otherwise the
  part of the current time's ISO string before its \<open>T\<close>.
\<close>

theorem forecast_dates:
  assumes "isValidForecastArgs args"
    and "get_forecast e (args_city args) (times_number (effective_days args) (Fin 8)) = Inr list"
    and "\<forall>k. 8 * k < length list \<longrightarrow> weather (list ! (8 * k)) \<noteq> []"
  shows "\<exists>fs. fst (callTool e ''get_forecast'' args) =
             Inr \<lparr>content = ForecastJson fs, isError = False\<rparr> \<and>
           (\<forall>k. 8 * k < length list \<longrightarrow>
              k < length fs \<and>
              (\<forall>t. dt_txt (list ! (8 * k)) = Some t \<longrightarrow>
                 date (fs ! k) = takeWhile (\<lambda>c. c \<noteq> CHR '' '') t) \<and>
              (dt_txt (list ! (8 * k)) = None \<longrightarrow>
                 date (fs ! k) = takeWhile (\<lambda>c. c \<noteq> CHR ''T'') (now e)))"
proof -
  from callTool_forecasts [OF assms] obtain fs where
    res: "fst (callTool e ''get_forecast'' args) =
            Inr \<lparr>content = ForecastJson fs, isError = False\<rparr>" and
    len: "length fs = (length list + 7) div 8" and
    ent: "\<forall>k < length fs. forecast_day e (list ! (8 * k)) = Inr (fs ! k)"
    by blast
  have "k < length fs \<and>
        (\<forall>t. dt_txt (list ! (8 * k)) = Some t \<longrightarrow>
           date (fs ! k) = takeWhile (\<lambda>c. c \<noteq> CHR '' '') t) \<and>
        (dt_txt (list ! (8 * k)) = None \<longrightarrow>
           date (fs ! k) = takeWhile (\<lambda>c. c \<noteq> CHR ''T'') (now e))"
    if "8 * k < length list" for k
  proof -
    from that have k: "k < length fs"
      using loop_count_index [of 0 k "length list"] by (simp add: len)
    with ent have "forecast_day e (list ! (8 * k)) = Inr (fs ! k)" by simp
    with k show ?thesis
      by (auto simp: forecast_day_Inr split0_takeWhile)
  qed
  with res show ?thesis by blast
qed

theorem forecast_dates_witness:
  "\<exists>fs. fst (callTool (world (Inl TypeError) (Inr (listing 8 @ [undated])))
            ''get_forecast'' paris) =
           Inr \<lparr>content = ForecastJson fs, isError = False\<rparr> \<and>
         date (fs ! 0) = ''2024-05-01'' \<and>
         date (fs ! 1) = ''2024-04-30''"
proof -
  let ?list = "listing 8 @ [undated]"
  let ?e = "world (Inl TypeError) (Inr ?list)"
  have sel: "\<forall>k. 8 * k < length ?list \<longrightarrow> weather (?list ! (8 * k)) \<noteq> []"
  proof (intro allI impI)
    fix k :: nat
    assume "8 * k < length ?list"
    then have "k = 0 \<or> k = 1" by (auto simp: listing_length)
    then show "weather (?list ! (8 * k)) \<noteq> []"
      by (auto simp: nth_append listing_length listing_nth sample_at_def undated_def)
  qed
  from forecast_dates [of paris ?e ?list, OF valid_paris(1) _ sel] obtain fs where
    res: "fst (callTool ?e ''get_forecast'' paris) =
            Inr \<lparr>content = ForecastJson fs, isError = False\<rparr>" and
    dates: "\<forall>k. 8 * k < length ?list \<longrightarrow>
              k < length fs \<and>
              (\<forall>t. dt_txt (?list ! (8 * k)) = Some t \<longrightarrow>
                 date (fs ! k) = takeWhile (\<lambda>c. c \<noteq> CHR '' '') t) \<and>
              (dt_txt (?list ! (8 * k)) = None \<longrightarrow>
                 date (fs ! k) = takeWhile (\<lambda>c. c \<noteq> CHR ''T'') (now ?e))"
    by (auto simp: world_simps)
  from dates [rule_format, of 0] have "date (fs ! 0) = ''2024-05-01''"
    by (simp add: nth_append listing_length listing_nth sample_at_def)
  moreover from dates [rule_format, of 1] have "date (fs ! 1) = ''2024-04-30''"
    by (simp add: nth_append listing_length undated_def world_simps)
  ultimately show ?thesis using res by blast
qed

end
